theory Spec2Isabelle
  imports Main "HOL-Library.Word"
begin

unbundle bit_operations_syntax

section \<open>Buffers\<close>

text \<open>
  A \<^verbatim>\<open>Buffer\<close> is a sequence of bytes. \<^verbatim>\<open>Buffer.alloc(n)\<close> is zero-filled,
  \<^verbatim>\<open>Buffer.concat\<close> is list concatenation, and \<^verbatim>\<open>slice(start, end)\<close> never raises:
  a negative index counts from the end and every index is clamped to the length.
\<close>

type_synonym byte = "8 word"
type_synonym buffer = "byte list"

definition alloc :: "nat \<Rightarrow> buffer" where
  "alloc n = replicate n 0"

definition clamp_index :: "nat \<Rightarrow> int \<Rightarrow> nat" where
  "clamp_index n i = (if i < 0 then nat (max 0 (int n + i)) else min n (nat i))"

definition buffer_slice :: "buffer \<Rightarrow> int \<Rightarrow> int option \<Rightarrow> buffer" where
  "buffer_slice b start end =
     (let n = length b;
          s = clamp_index n start;
          e = (case end of None \<Rightarrow> n | Some i \<Rightarrow> clamp_index n i)
      in take (e - s) (drop s b))"

text \<open>\<^verbatim>\<open>a.compare(b)\<close>: -1, 0 or 1 by lexicographic order of the bytes.\<close>

fun buffer_compare :: "buffer \<Rightarrow> buffer \<Rightarrow> int" where
  "buffer_compare [] [] = 0"
| "buffer_compare [] (y # ys) = - 1"
| "buffer_compare (x # xs) [] = 1"
| "buffer_compare (x # xs) (y # ys) =
     (if x < y then - 1 else if y < x then 1 else buffer_compare xs ys)"

section \<open>The IDL and the external capabilities\<close>

text \<open>
  Of the IDL the coder reads the optional list of account type definitions, the
  optional list of user types and the optional layout version. The body of a type
  definition is opaque to this file: only \<^verbatim>\<open>IdlCoder.typeDefLayout\<close> looks at it.
\<close>

record 'a idlTypeDef =
  name :: string
  type :: 'a

record 'a idl =
  accounts :: "'a idlTypeDef list option"
  types :: "'a idlTypeDef list option"
  layoutVersion :: "string option"

text \<open>
  A \<^verbatim>\<open>Layout\<close> (package buffer-layout) is a capability with two operations.
  \<^verbatim>\<open>encode(src, b)\<close> writes into the buffer it is given and returns the number of bytes
  written; \<^verbatim>\<open>decode(b)\<close> reads a value. Either may raise, which is \<open>None\<close> here.
\<close>

record 'v layout =
  l_encode :: "'v \<Rightarrow> buffer \<Rightarrow> (int \<times> buffer) option"
  l_decode :: "buffer \<Rightarrow> 'v option"

text \<open>
  The functions imported from other packages and modules are parameters of the model:
  \<^verbatim>\<open>sha256.digest\<close>, \<^verbatim>\<open>camelcase(_, { pascalCase: true })\<close>, \<^verbatim>\<open>bs58.encode\<close> and
  \<^verbatim>\<open>IdlCoder.typeDefLayout\<close> (which may raise).
\<close>

record ('a, 'v) env =
  sha256_digest :: "string \<Rightarrow> buffer"
  camelcase :: "string \<Rightarrow> string"
  bs58_encode :: "buffer \<Rightarrow> string"
  typeDefLayout :: "'a idlTypeDef \<Rightarrow> 'a idlTypeDef list option \<Rightarrow> 'v layout option"

datatype error =
    UnknownAccount string  \<comment> \<open>\<^verbatim>\<open>Error(`Unknown account: ${accountName}`)\<close>\<close>
  | InvalidDiscriminator   \<comment> \<open>\<^verbatim>\<open>Error("Invalid account discriminator")\<close>\<close>
  | TypeError              \<comment> \<open>a method call on the undefined \<^verbatim>\<open>this.header\<close>\<close>
  | LayoutError            \<comment> \<open>whatever a Layout or \<^verbatim>\<open>typeDefLayout\<close> raised\<close>

section \<open>BorshAccountHeader\<close>

definition ACCOUNT_HEADER_SIZE :: nat where
  "ACCOUNT_HEADER_SIZE = 8"

definition ACCOUNT_DISCRIMINATOR_SIZE :: nat where
  "ACCOUNT_DISCRIMINATOR_SIZE = 4"

definition DEPRECATED_ACCOUNT_DISCRIMINATOR_SIZE :: nat where
  "DEPRECATED_ACCOUNT_DISCRIMINATOR_SIZE = 8"

text \<open>The header object holds the IDL it was constructed with and nothing else.\<close>

type_synonym 'a borshAccountHeader = "'a idl"

definition discriminatorSize :: "'a borshAccountHeader \<Rightarrow> nat" where
  "discriminatorSize h =
     (if layoutVersion h = None then DEPRECATED_ACCOUNT_DISCRIMINATOR_SIZE
      else ACCOUNT_DISCRIMINATOR_SIZE)"

definition discriminatorOffset :: "'a borshAccountHeader \<Rightarrow> nat" where
  "discriminatorOffset h = (if layoutVersion h = None then 0 else 2)"

definition discriminator ::
  "('a, 'v) env \<Rightarrow> 'a borshAccountHeader \<Rightarrow> string \<Rightarrow> string option \<Rightarrow> buffer" where
  "discriminator E h nm nameSpace =
     buffer_slice
       (sha256_digest E
          ((case nameSpace of None \<Rightarrow> ''account'' | Some ns \<Rightarrow> ns) @ '':'' @ camelcase E nm))
       0 (Some (int (discriminatorSize h)))"

definition header_encode ::
  "('a, 'v) env \<Rightarrow> 'a borshAccountHeader \<Rightarrow> string \<Rightarrow> string option \<Rightarrow> buffer" where
  "header_encode E h accountName nameSpace =
     (if layoutVersion h = None then discriminator E h accountName nameSpace
      else concat [[0], [0], discriminator E h accountName nameSpace, [0, 0]])"

definition header_size :: nat where
  "header_size = ACCOUNT_HEADER_SIZE"

definition parseDiscriminator :: "'a borshAccountHeader \<Rightarrow> buffer \<Rightarrow> buffer" where
  "parseDiscriminator h data =
     (if layoutVersion h = None then buffer_slice data 0 (Some 8)
      else buffer_slice data 2 (Some 6))"

section \<open>BorshAccountsCoder\<close>

text \<open>
  The fields of the coder. The constructor returns early when the IDL has no
  \<^verbatim>\<open>accounts\<close> member, and then \<^verbatim>\<open>this.idl\<close> and \<^verbatim>\<open>this.header\<close> stay undefined.
\<close>

record ('a, 'v) coder =
  accountLayouts :: "string \<rightharpoonup> 'v layout"
  coder_idl :: "'a idl option"
  header :: "'a borshAccountHeader option"

text \<open>
  \<^verbatim>\<open>idl.accounts.map(acc => [acc.name, typeDefLayout(acc, idl.types)])\<close>: the first
  definition whose layout cannot be built aborts the construction.
\<close>

fun layouts_of ::
  "('a, 'v) env \<Rightarrow> 'a idlTypeDef list \<Rightarrow> 'a idlTypeDef list option \<Rightarrow>
     error + (string \<times> 'v layout) list" where
  "layouts_of E [] tys = Inr []"
| "layouts_of E (acc # accs) tys =
     (case typeDefLayout E acc tys of
        None \<Rightarrow> Inl LayoutError
      | Some l \<Rightarrow>
          (case layouts_of E accs tys of
             Inl e \<Rightarrow> Inl e
           | Inr ls \<Rightarrow> Inr ((name acc, l) # ls)))"

text \<open>\<^verbatim>\<open>new Map(layouts)\<close>: of two entries with one key the later one stays.\<close>

definition new_Map :: "('k \<times> 'x) list \<Rightarrow> ('k \<rightharpoonup> 'x)" where
  "new_Map kvs = map_of (rev kvs)"

definition new_coder :: "('a, 'v) env \<Rightarrow> 'a idl \<Rightarrow> error + ('a, 'v) coder" where
  "new_coder E i =
     (case accounts i of
        None \<Rightarrow> Inr \<lparr>accountLayouts = Map.empty, coder_idl = None, header = None\<rparr>
      | Some accs \<Rightarrow>
          (case layouts_of E accs (types i) of
             Inl e \<Rightarrow> Inl e
           | Inr layouts \<Rightarrow>
               Inr \<lparr>accountLayouts = new_Map layouts, coder_idl = Some i, header = Some i\<rparr>))"

definition encode ::
  "('a, 'v) env \<Rightarrow> ('a, 'v) coder \<Rightarrow> string \<Rightarrow> 'v \<Rightarrow> error + buffer" where
  "encode E c accountName account =
     (let buffer = alloc 1000 in
      case accountLayouts c accountName of
        None \<Rightarrow> Inl (UnknownAccount accountName)
      | Some l \<Rightarrow>
          (case l_encode l account buffer of
             None \<Rightarrow> Inl LayoutError
           | Some (len, buffer') \<Rightarrow>
               (let accountData = buffer_slice buffer' 0 (Some len) in
                case header c of
                  None \<Rightarrow> Inl TypeError
                | Some h \<Rightarrow> Inr (concat [header_encode E h accountName None, accountData]))))"

definition decodeUnchecked :: "('a, 'v) coder \<Rightarrow> string \<Rightarrow> buffer \<Rightarrow> error + 'v" where
  "decodeUnchecked c accountName ix =
     (let data = buffer_slice ix (int header_size) None in
      case accountLayouts c accountName of
        None \<Rightarrow> Inl (UnknownAccount accountName)
      | Some l \<Rightarrow> (case l_decode l data of None \<Rightarrow> Inl LayoutError | Some v \<Rightarrow> Inr v))"

definition decode ::
  "('a, 'v) env \<Rightarrow> ('a, 'v) coder \<Rightarrow> string \<Rightarrow> buffer \<Rightarrow> error + 'v" where
  "decode E c accountName data =
     (case header c of
        None \<Rightarrow> Inl TypeError
      | Some h \<Rightarrow>
          (let expectedDiscriminator = discriminator E h accountName None;
               givenDisc = parseDiscriminator h data
           in if buffer_compare expectedDiscriminator givenDisc \<noteq> 0
              then Inl InvalidDiscriminator
              else decodeUnchecked c accountName data))"

record memcmp_filter =
  offset :: nat
  bytes :: string

definition memcmp ::
  "('a, 'v) env \<Rightarrow> ('a, 'v) coder \<Rightarrow> string \<Rightarrow> error + memcmp_filter" where
  "memcmp E c accountName =
     (case header c of
        None \<Rightarrow> Inl TypeError
      | Some h \<Rightarrow>
          Inr \<lparr>offset = discriminatorOffset h,
               bytes = bs58_encode E (discriminator E h accountName None)\<rparr>)"

definition memcmpDataOffset :: nat where
  "memcmpDataOffset = header_size"

section \<open>Reference instances of the external capabilities\<close>

subsection \<open>SHA-256\<close>

text \<open>
  The digest of package js-sha256 is SHA-256 as FIPS 180-4 defines it, on the bytes of
  the string (type names are ASCII, one byte per character).
\<close>

type_synonym word32 = "32 word"

definition K256 :: "word32 list" where
  "K256 =
    [0x428A2F98, 0x71374491, 0xB5C0FBCF, 0xE9B5DBA5, 0x3956C25B, 0x59F111F1, 0x923F82A4, 0xAB1C5ED5,
     0xD807AA98, 0x12835B01, 0x243185BE, 0x550C7DC3, 0x72BE5D74, 0x80DEB1FE, 0x9BDC06A7, 0xC19BF174,
     0xE49B69C1, 0xEFBE4786, 0x0FC19DC6, 0x240CA1CC, 0x2DE92C6F, 0x4A7484AA, 0x5CB0A9DC, 0x76F988DA,
     0x983E5152, 0xA831C66D, 0xB00327C8, 0xBF597FC7, 0xC6E00BF3, 0xD5A79147, 0x06CA6351, 0x14292967,
     0x27B70A85, 0x2E1B2138, 0x4D2C6DFC, 0x53380D13, 0x650A7354, 0x766A0ABB, 0x81C2C92E, 0x92722C85,
     0xA2BFE8A1, 0xA81A664B, 0xC24B8B70, 0xC76C51A3, 0xD192E819, 0xD6990624, 0xF40E3585, 0x106AA070,
     0x19A4C116, 0x1E376C08, 0x2748774C, 0x34B0BCB5, 0x391C0CB3, 0x4ED8AA4A, 0x5B9CCA4F, 0x682E6FF3,
     0x748F82EE, 0x78A5636F, 0x84C87814, 0x8CC70208, 0x90BEFFFA, 0xA4506CEB, 0xBEF9A3F7, 0xC67178F2]"

type_synonym hash_state =
  "word32 \<times> word32 \<times> word32 \<times> word32 \<times> word32 \<times> word32 \<times> word32 \<times> word32"

definition H0 :: hash_state where
  "H0 = (0x6A09E667, 0xBB67AE85, 0x3C6EF372, 0xA54FF53A,
         0x510E527F, 0x9B05688C, 0x1F83D9AB, 0x5BE0CD19)"

definition Ch :: "word32 \<Rightarrow> word32 \<Rightarrow> word32 \<Rightarrow> word32" where
  "Ch x y z = (x AND y) XOR (NOT x AND z)"

definition Maj :: "word32 \<Rightarrow> word32 \<Rightarrow> word32 \<Rightarrow> word32" where
  "Maj x y z = (x AND y) XOR (x AND z) XOR (y AND z)"

definition Sigma0 :: "word32 \<Rightarrow> word32" where
  "Sigma0 x = word_rotr 2 x XOR word_rotr 13 x XOR word_rotr 22 x"

definition Sigma1 :: "word32 \<Rightarrow> word32" where
  "Sigma1 x = word_rotr 6 x XOR word_rotr 11 x XOR word_rotr 25 x"

definition sigma0 :: "word32 \<Rightarrow> word32" where
  "sigma0 x = word_rotr 7 x XOR word_rotr 18 x XOR drop_bit 3 x"

definition sigma1 :: "word32 \<Rightarrow> word32" where
  "sigma1 x = word_rotr 17 x XOR word_rotr 19 x XOR drop_bit 10 x"

definition sha_pad :: "buffer \<Rightarrow> buffer" where
  "sha_pad m =
     m @ [0x80] @ replicate ((119 - length m mod 64) mod 64) 0 @
     map (\<lambda>i. ucast (drop_bit (8 * (7 - i)) (word_of_nat (8 * length m) :: 64 word))) [0..<8]"

fun be_words :: "buffer \<Rightarrow> word32 list" where
  "be_words (a # b # c # d # r) =
     (push_bit 24 (ucast a) OR push_bit 16 (ucast b) OR push_bit 8 (ucast c) OR ucast d)
       # be_words r"
| "be_words _ = []"

definition be_bytes :: "word32 \<Rightarrow> buffer" where
  "be_bytes w = [ucast (drop_bit 24 w), ucast (drop_bit 16 w), ucast (drop_bit 8 w), ucast w]"

fun schedule :: "nat \<Rightarrow> word32 list \<Rightarrow> word32 list" where
  "schedule 0 w = w"
| "schedule (Suc n) w =
     (let t = length w
      in schedule n
           (w @ [sigma1 (w ! (t - 2)) + w ! (t - 7) + sigma0 (w ! (t - 15)) + w ! (t - 16)]))"

fun sha_round :: "hash_state \<Rightarrow> word32 \<times> word32 \<Rightarrow> hash_state" where
  "sha_round (a, b, c, d, e, f, g, h) (k, w) =
     (let T1 = h + Sigma1 e + Ch e f g + k + w;
          T2 = Sigma0 a + Maj a b c
      in (T1 + T2, a, b, c, d + T1, e, f, g))"

fun add_state :: "hash_state \<Rightarrow> hash_state \<Rightarrow> hash_state" where
  "add_state (a, b, c, d, e, f, g, h) (a', b', c', d', e', f', g', h') =
     (a + a', b + b', c + c', d + d', e + e', f + f', g + g', h + h')"

definition compress :: "hash_state \<Rightarrow> buffer \<Rightarrow> hash_state" where
  "compress H block =
     add_state H (foldl sha_round H (zip K256 (schedule 48 (be_words block))))"

definition blocks_of :: "buffer \<Rightarrow> buffer list" where
  "blocks_of m = map (\<lambda>i. take 64 (drop (64 * i) m)) [0..<length m div 64]"

fun state_bytes :: "hash_state \<Rightarrow> buffer" where
  "state_bytes (a, b, c, d, e, f, g, h) = concat (map be_bytes [a, b, c, d, e, f, g, h])"

definition sha256_bytes :: "buffer \<Rightarrow> buffer" where
  "sha256_bytes m = state_bytes (foldl compress H0 (blocks_of (sha_pad m)))"

definition sha256 :: "string \<Rightarrow> buffer" where
  "sha256 s = sha256_bytes (map of_char s)"

subsection \<open>Pascal case\<close>

text \<open>Upper and lower case of the ASCII letters; other characters have no case.\<close>

definition is_upper :: "char \<Rightarrow> bool" where
  "is_upper c = (65 \<le> (of_char c :: nat) \<and> (of_char c :: nat) \<le> 90)"

definition is_lower :: "char \<Rightarrow> bool" where
  "is_lower c = (97 \<le> (of_char c :: nat) \<and> (of_char c :: nat) \<le> 122)"

definition to_upper :: "char \<Rightarrow> char" where
  "to_upper c = (if is_lower c then char_of ((of_char c :: nat) - 32) else c)"

definition to_lower :: "char \<Rightarrow> char" where
  "to_lower c = (if is_upper c then char_of ((of_char c :: nat) + 32) else c)"

definition is_separator :: "char \<Rightarrow> bool" where
  "is_separator c = (c \<in> set ''_.- '')"

text \<open>
  Modelled from the spec: the words of a type name (the package camelcase is not among
  the sources). The arguments are the word being read, whether the previous character
  was a lower-case letter, and the rest of the name. A separator ends the word and is
  dropped; an upper-case letter after a lower-case one starts a new word.
\<close>

fun split_words :: "string \<Rightarrow> bool \<Rightarrow> string \<Rightarrow> string list" where
  "split_words w prev_lower [] = (if w = [] then [] else [w])"
| "split_words w prev_lower (c # cs) =
     (if is_separator c then (if w = [] then [] else [w]) @ split_words [] False cs
      else if prev_lower \<and> is_upper c then w # split_words [c] False cs
      else split_words (w @ [c]) (is_lower c) cs)"

text \<open>
  Modelled from the spec: a capitalized word, its first letter in upper case and the
  others in lower case.
\<close>

definition capitalize :: "string \<Rightarrow> string" where
  "capitalize w = (case w of [] \<Rightarrow> [] | c # cs \<Rightarrow> to_upper c # map to_lower cs)"

text \<open>
  Modelled from the spec: \<^verbatim>\<open>camelcase(name, { pascalCase: true })\<close>, of a package that is
  not among the sources. The spec calls its result the canonical form, "the capitalized,
  word-concatenated rendering of a type name": the words of the name, each capitalized,
  joined without a separator.
\<close>

definition pascalCase :: "string \<Rightarrow> string" where
  "pascalCase s = concat (map capitalize (split_words [] False s))"

subsection \<open>Base58\<close>

text \<open>
  \<^verbatim>\<open>bs58.encode\<close>: one \<open>1\<close> for each leading zero byte, then the digits of the
  big-endian number in base 58 over the Bitcoin alphabet.
\<close>

definition base58_alphabet :: string where
  "base58_alphabet = ''123456789ABCDEFGHJKLMNPQRSTUVWXYZabcdefghijkmnopqrstuvwxyz''"

definition int_of_bytes :: "buffer \<Rightarrow> int" where
  "int_of_bytes bs = foldl (\<lambda>acc b. 256 * acc + uint b) 0 bs"

function base58_digits :: "int \<Rightarrow> string" where
  "base58_digits n =
     (if n \<le> 0 then [] else base58_digits (n div 58) @ [base58_alphabet ! nat (n mod 58)])"
  by pat_completeness auto
termination
  by (relation "measure nat") auto

declare base58_digits.simps [simp del]

definition base58 :: "buffer \<Rightarrow> string" where
  "base58 bs =
     replicate (length (takeWhile (\<lambda>b. b = 0) bs)) (CHR ''1'') @ base58_digits (int_of_bytes bs)"

subsection \<open>A layout of raw bytes and example schemas\<close>

text \<open>
  The simplest Layout: the value is a byte string, written as it is at the start of
  the buffer; writing past the end of the buffer raises, as the writes of \<^verbatim>\<open>Buffer\<close> do.
\<close>

definition raw_layout :: "buffer layout" where
  "raw_layout =
     \<lparr>l_encode = (\<lambda>src b. if length src \<le> length b
                           then Some (int (length src), src @ drop (length src) b)
                           else None),
      l_decode = (\<lambda>b. Some b)\<rparr>"

definition ref_env :: "(unit, buffer) env" where
  "ref_env =
     \<lparr>sha256_digest = sha256, camelcase = pascalCase, bs58_encode = base58,
      typeDefLayout = (\<lambda>acc tys. Some raw_layout)\<rparr>"

definition counter_typedef :: "unit idlTypeDef" where
  "counter_typedef = \<lparr>name = ''counter'', type = ()\<rparr>"

definition legacy_idl :: "unit idl" where
  "legacy_idl = \<lparr>accounts = Some [counter_typedef], types = None, layoutVersion = None\<rparr>"

definition versioned_idl :: "unit idl" where
  "versioned_idl =
     \<lparr>accounts = Some [counter_typedef], types = None, layoutVersion = Some ''0.1.0''\<rparr>"

definition empty_idl :: "unit idl" where
  "empty_idl = \<lparr>accounts = Some [], types = None, layoutVersion = None\<rparr>"

definition bare_idl :: "unit idl" where
  "bare_idl = \<lparr>accounts = None, types = None, layoutVersion = None\<rparr>"

definition legacy_coder :: "(unit, buffer) coder" where
  "legacy_coder =
     \<lparr>accountLayouts = new_Map [(''counter'', raw_layout)],
      coder_idl = Some legacy_idl, header = Some legacy_idl\<rparr>"

definition versioned_coder :: "(unit, buffer) coder" where
  "versioned_coder =
     \<lparr>accountLayouts = new_Map [(''counter'', raw_layout)],
      coder_idl = Some versioned_idl, header = Some versioned_idl\<rparr>"

definition empty_coder :: "(unit, buffer) coder" where
  "empty_coder =
     \<lparr>accountLayouts = new_Map [], coder_idl = Some empty_idl, header = Some empty_idl\<rparr>"

section \<open>Specification vocabulary\<close>

text \<open>\<open>decode(T, encode(T, v))\<close>, a failure of \<open>encode\<close> being the failure of the whole.\<close>

definition roundtrip :: "('a, 'v) env \<Rightarrow> ('a, 'v) coder \<Rightarrow> string \<Rightarrow> 'v \<Rightarrow> error + 'v" where
  "roundtrip E c T v = (case encode E c T v of Inl e \<Rightarrow> Inl e | Inr bs \<Rightarrow> decode E c T bs)"

text \<open>
  \<open>writes l v body\<close>: the layout encodes \<open>v\<close> as the bytes \<open>body\<close>. Given a buffer with
  room for them it writes them at the start, leaves the rest as it was and returns their
  number; given a shorter buffer it raises.
\<close>

definition writes :: "'v layout \<Rightarrow> 'v \<Rightarrow> buffer \<Rightarrow> bool" where
  "writes l v body \<longleftrightarrow>
     (\<forall>b. l_encode l v b =
        (if length body \<le> length b
         then Some (int (length body), body @ drop (length body) b)
         else None))"

section \<open>Auxiliary facts\<close>

lemma state_bytes_length: "length (state_bytes S) = 32"
  by (induction S rule: state_bytes.induct) (simp add: be_bytes_def)

lemma sha256_length: "length (sha256 s) = 32"
  by (simp add: sha256_def sha256_bytes_def state_bytes_length)

lemma buffer_slice_prefix: "buffer_slice b 0 (Some (int n)) = take n b"
  unfolding buffer_slice_def clamp_index_def Let_def by (auto simp: min_def)

lemma buffer_slice_suffix: "buffer_slice b (int n) None = drop n b"
  unfolding buffer_slice_def clamp_index_def Let_def by (auto simp: min_def)

lemma buffer_slice_2_6: "buffer_slice b 2 (Some 6) = take 4 (drop 2 b)"
  unfolding buffer_slice_def clamp_index_def Let_def by (auto simp: min_def)

lemma buffer_slice_0_8: "buffer_slice b 0 (Some 8) = take 8 b"
  using buffer_slice_prefix [of b 8] by simp

lemma buffer_slice_8: "buffer_slice b 8 None = drop 8 b"
  using buffer_slice_suffix [of b 8] by simp

lemma buffer_compare_eq: "buffer_compare a b = 0 \<longleftrightarrow> a = b"
  by (induction a b rule: buffer_compare.induct) auto

lemma discriminator_take:
  "discriminator E h nm ns =
     take (discriminatorSize h)
       (sha256_digest E ((case ns of None \<Rightarrow> ''account'' | Some n \<Rightarrow> n) @ '':'' @ camelcase E nm))"
  by (simp add: discriminator_def buffer_slice_prefix)

lemma discriminator_length:
  "\<forall>s. length (sha256_digest E s) = 32 \<Longrightarrow>
   length (discriminator E h nm ns) = discriminatorSize h"
  by (simp add: discriminator_take discriminatorSize_def
      DEPRECATED_ACCOUNT_DISCRIMINATOR_SIZE_def ACCOUNT_DISCRIMINATOR_SIZE_def)

lemma header_encode_length:
  "\<forall>s. length (sha256_digest E s) = 32 \<Longrightarrow> length (header_encode E h nm ns) = 8"
  by (simp add: header_encode_def discriminator_length discriminatorSize_def
      DEPRECATED_ACCOUNT_DISCRIMINATOR_SIZE_def ACCOUNT_DISCRIMINATOR_SIZE_def)

lemma parseDiscriminator_header:
  "\<forall>s. length (sha256_digest E s) = 32 \<Longrightarrow>
   parseDiscriminator h (header_encode E h nm ns @ body) = discriminator E h nm ns"
  by (simp add: parseDiscriminator_def header_encode_def buffer_slice_0_8 buffer_slice_2_6
      discriminator_length discriminatorSize_def
      DEPRECATED_ACCOUNT_DISCRIMINATOR_SIZE_def ACCOUNT_DISCRIMINATOR_SIZE_def)

lemma new_coder_header:
  "new_coder E i = Inr c \<Longrightarrow> accounts i \<noteq> None \<Longrightarrow> header c = Some i"
  by (auto simp: new_coder_def split: option.splits sum.splits)

lemma new_coder_registered:
  "new_coder E i = Inr c \<Longrightarrow> accountLayouts c T = Some l \<Longrightarrow> header c = Some i"
  by (auto simp: new_coder_def split: option.splits sum.splits)

lemma new_coder_legacy: "new_coder ref_env legacy_idl = Inr legacy_coder"
  by (simp add: new_coder_def ref_env_def legacy_idl_def legacy_coder_def counter_typedef_def)

lemma new_coder_versioned: "new_coder ref_env versioned_idl = Inr versioned_coder"
  by (simp add: new_coder_def ref_env_def versioned_idl_def versioned_coder_def
      counter_typedef_def)

lemma new_coder_empty: "new_coder ref_env empty_idl = Inr empty_coder"
  by (simp add: new_coder_def ref_env_def empty_idl_def empty_coder_def)

lemma ref_env_digest_length: "\<forall>s. length (sha256_digest ref_env s) = 32"
  by (simp add: ref_env_def sha256_length)

lemma sha256_account_Counter:
  "sha256 ''account:Counter'' =
     [255, 176, 4, 245, 188, 253, 124, 25, 151, 102, 57, 201, 199, 146, 46, 77,
      91, 0, 176, 44, 29, 73, 252, 8, 51, 251, 240, 243, 0, 198, 215, 195]"
  by code_simp

lemma pascalCase_counter: "pascalCase ''counter'' = ''Counter''"
  by code_simp

lemma discriminator_counter_legacy:
  "discriminator ref_env legacy_idl ''counter'' None = [255, 176, 4, 245, 188, 253, 124, 25]"
  by (simp add: discriminator_take ref_env_def legacy_idl_def discriminatorSize_def
      DEPRECATED_ACCOUNT_DISCRIMINATOR_SIZE_def pascalCase_counter sha256_account_Counter)

lemma discriminator_counter_versioned:
  "discriminator ref_env versioned_idl ''counter'' None = [255, 176, 4, 245]"
  by (simp add: discriminator_take ref_env_def versioned_idl_def discriminatorSize_def
      ACCOUNT_DISCRIMINATOR_SIZE_def pascalCase_counter sha256_account_Counter)

lemma layoutVersion_legacy: "layoutVersion legacy_idl = None"
  by (simp add: legacy_idl_def)

lemma layoutVersion_versioned: "layoutVersion versioned_idl = Some ''0.1.0''"
  by (simp add: versioned_idl_def)

lemma layoutVersion_empty: "layoutVersion empty_idl = None"
  by (simp add: empty_idl_def)

lemma new_coder_header_eq: "new_coder E i = Inr c \<Longrightarrow> header c = Some h \<Longrightarrow> h = i"
  by (auto simp: new_coder_def split: option.splits sum.splits)

lemma sha256_account_Nope:
  "sha256 ''account:Nope'' =
     [199, 203, 192, 10, 172, 69, 62, 43, 58, 39, 93, 163, 33, 227, 29, 35,
      106, 14, 218, 3, 157, 78, 40, 3, 193, 63, 74, 75, 143, 159, 51, 73]"
  by code_simp

lemma pascalCase_Nope: "pascalCase ''Nope'' = ''Nope''"
  by code_simp

lemma discriminator_Nope_legacy:
  "discriminator ref_env legacy_idl ''Nope'' None = [199, 203, 192, 10, 172, 69, 62, 43]"
  by (simp add: discriminator_take ref_env_def legacy_idl_def discriminatorSize_def
      DEPRECATED_ACCOUNT_DISCRIMINATOR_SIZE_def pascalCase_Nope sha256_account_Nope)

lemma discriminator_counter_empty:
  "discriminator ref_env empty_idl ''counter'' None = [255, 176, 4, 245, 188, 253, 124, 25]"
  by (simp add: discriminator_take ref_env_def empty_idl_def discriminatorSize_def
      DEPRECATED_ACCOUNT_DISCRIMINATOR_SIZE_def pascalCase_counter sha256_account_Counter)

lemma base58_Nope: "base58 [199, 203, 192, 10, 172, 69, 62, 43] = ''aRGgwvYSubp''"
  by code_simp

lemma base58_counter_legacy:
  "base58 [255, 176, 4, 245, 188, 253, 124, 25] = ''jmVQbGxuVYt''"
  by code_simp

lemma base58_counter: "base58 [255, 176, 4, 245] = ''7Y4xzg''"
  by code_simp

lemma ref_env_bs58: "bs58_encode ref_env = base58"
  by (simp add: ref_env_def)

lemma legacy_coder_counter: "accountLayouts legacy_coder ''counter'' = Some raw_layout"
  by (simp add: legacy_coder_def new_Map_def)

lemma legacy_coder_Nope: "accountLayouts legacy_coder ''Nope'' = None"
  by (simp add: legacy_coder_def new_Map_def)

lemma header_legacy_coder: "header legacy_coder = Some legacy_idl"
  by (simp add: legacy_coder_def)

lemma header_versioned_coder: "header versioned_coder = Some versioned_idl"
  by (simp add: versioned_coder_def)

lemma header_empty_coder: "header empty_coder = Some empty_idl"
  by (simp add: empty_coder_def)

lemma accounts_legacy: "accounts legacy_idl \<noteq> None"
  by (simp add: legacy_idl_def)

lemma accounts_versioned: "accounts versioned_idl \<noteq> None"
  by (simp add: versioned_idl_def)

lemma parseDiscriminator_legacy: "parseDiscriminator legacy_idl bs = take 8 bs"
  by (simp add: parseDiscriminator_def layoutVersion_legacy buffer_slice_0_8)

lemma parseDiscriminator_empty: "parseDiscriminator empty_idl bs = take 8 bs"
  by (simp add: parseDiscriminator_def layoutVersion_empty buffer_slice_0_8)

lemma decode_no_layout:
  assumes "header c = Some h" and "accountLayouts c T = None"
  shows "decode E c T bs =
           (if discriminator E h T None = parseDiscriminator h bs
            then Inl (UnknownAccount T) else Inl InvalidDiscriminator)"
  using assms by (simp add: decode_def decodeUnchecked_def buffer_compare_eq)

text \<open>
  On a coder built from a schema without an \<^verbatim>\<open>accounts\<close> member the header is undefined,
  and the two operations that reach for it raise a type error.
\<close>

lemma no_header_TypeError:
  assumes "new_coder E i = Inr c" and "accounts i = None"
  shows "decode E c T bs = Inl TypeError \<and> memcmp E c T = Inl TypeError"
  using assms by (auto simp: new_coder_def decode_def memcmp_def)

lemma empty_coder_layouts: "accountLayouts empty_coder T = None"
  by (simp add: empty_coder_def new_Map_def)

lemma writes_raw_layout: "writes raw_layout v v"
  by (simp add: writes_def raw_layout_def)

lemma encode_registered:
  assumes "header c = Some h" and "accountLayouts c T = Some l"
    and "l_encode l v (alloc 1000) = Some (len, b')"
  shows "encode E c T v = Inr (header_encode E h T None @ buffer_slice b' 0 (Some len))"
  using assms by (simp add: encode_def)

lemma encode_layout_raises:
  assumes "accountLayouts c T = Some l" and "l_encode l v (alloc 1000) = None"
  shows "encode E c T v = Inl LayoutError"
  using assms by (simp add: encode_def)

lemma decode_encoded_record:
  assumes "header c = Some h" and "accountLayouts c T = Some l"
    and "\<forall>s. length (sha256_digest E s) = 32"
  shows "decode E c T (header_encode E h T None @ body) =
           (case l_decode l body of None \<Rightarrow> Inl LayoutError | Some v \<Rightarrow> Inr v)"
  using assms(1,2) parseDiscriminator_header [OF assms(3), of h T None body]
    header_encode_length [OF assms(3), of h T None]
  by (simp add: decode_def decodeUnchecked_def buffer_compare_eq header_size_def
      ACCOUNT_HEADER_SIZE_def buffer_slice_8)

section \<open>The header\<close>

text \<open>
  C2. For every type name the encoded header has exactly 8 bytes, the fixed header size.
  Without a layout version in the schema it is the 8-byte discriminator; with one it is
  \<open>[0, 0]\<close>, the 4-byte discriminator and \<open>[0, 0]\<close>. The digest is taken to be 32 bytes
  long, as a SHA-256 digest is.
\<close>

theorem header_encode_eight_bytes:
  assumes "\<forall>s. length (sha256_digest E s) = 32"
  shows "length (header_encode E h accountName ns) = 8 \<and> header_size = 8 \<and>
         header_encode E h accountName ns =
           (if layoutVersion h = None then discriminator E h accountName ns
            else [0, 0] @ discriminator E h accountName ns @ [0, 0]) \<and>
         length (discriminator E h accountName ns) = (if layoutVersion h = None then 8 else 4)"
proof -
  have "length (discriminator E h accountName ns) = (if layoutVersion h = None then 8 else 4)"
    using discriminator_length [OF assms, of h accountName ns]
    by (simp add: discriminatorSize_def DEPRECATED_ACCOUNT_DISCRIMINATOR_SIZE_def
        ACCOUNT_DISCRIMINATOR_SIZE_def)
  moreover have "header_size = 8"
    by (simp add: header_size_def ACCOUNT_HEADER_SIZE_def)
  moreover have "header_encode E h accountName ns =
      (if layoutVersion h = None then discriminator E h accountName ns
       else [0, 0] @ discriminator E h accountName ns @ [0, 0])"
    by (simp add: header_encode_def)
  ultimately show ?thesis
    using header_encode_length [OF assms, of h accountName ns] by simp
qed

theorem header_encode_eight_bytes_witness:
  "(\<forall>s. length (sha256_digest ref_env s) = 32) \<and>
   header_encode ref_env versioned_idl ''counter'' None = [0, 0, 255, 176, 4, 245, 0, 0] \<and>
   header_encode ref_env legacy_idl ''counter'' None = [255, 176, 4, 245, 188, 253, 124, 25]"
  using header_encode_eight_bytes [OF ref_env_digest_length, of versioned_idl "''counter''" None]
    header_encode_eight_bytes [OF ref_env_digest_length, of legacy_idl "''counter''" None]
    ref_env_digest_length
  by (simp add: discriminator_counter_versioned discriminator_counter_legacy
      layoutVersion_versioned layoutVersion_legacy)

text \<open>
  C6. The discriminator of a type name is the digest of
  \<open>namespace:PascalCase(name)\<close>, the namespace being \<open>account\<close> when none is given, cut to
  its first 8 bytes without a layout version and to its first 4 bytes with one. It depends
  on the schema only through the presence of the layout version: the headers of any two
  coders built from schemas that agree on it give the same bytes for the same name and
  namespace.
\<close>

theorem discriminator_digest_prefix:
  assumes "\<forall>s. length (sha256_digest E s) = 32"
  shows "discriminator E h nm ns =
           take (if layoutVersion h = None then 8 else 4)
             (sha256_digest E
                ((case ns of None \<Rightarrow> ''account'' | Some n \<Rightarrow> n) @ '':'' @ camelcase E nm)) \<and>
         length (discriminator E h nm ns) = (if layoutVersion h = None then 8 else 4) \<and>
         (\<forall>i i' c c' h1 h2.
            new_coder E i = Inr c \<and> new_coder E i' = Inr c' \<and>
            header c = Some h1 \<and> header c' = Some h2 \<and>
            (layoutVersion i = None) = (layoutVersion i' = None) \<longrightarrow>
            discriminator E h1 nm ns = discriminator E h2 nm ns)"
proof -
  have size: "discriminatorSize x = (if layoutVersion x = None then 8 else 4)" for x :: "'a idl"
    by (simp add: discriminatorSize_def DEPRECATED_ACCOUNT_DISCRIMINATOR_SIZE_def
        ACCOUNT_DISCRIMINATOR_SIZE_def)
  have prefix: "discriminator E h nm ns =
      take (if layoutVersion h = None then 8 else 4)
        (sha256_digest E
           ((case ns of None \<Rightarrow> ''account'' | Some n \<Rightarrow> n) @ '':'' @ camelcase E nm))"
    using discriminator_take [of E h nm ns] by (simp only: size)
  have len: "length (discriminator E h nm ns) = (if layoutVersion h = None then 8 else 4)"
    using discriminator_length [OF assms, of h nm ns] by (simp only: size)
  have same: "discriminator E h1 nm ns = discriminator E h2 nm ns"
    if "new_coder E i = Inr c" "new_coder E i' = Inr c'"
      "header c = Some h1" "header c' = Some h2"
      "(layoutVersion i = None) = (layoutVersion i' = None)"
    for i i' :: "'a idl" and c c' h1 h2
  proof -
    have "h1 = i" "h2 = i'"
      using that new_coder_header_eq by blast+
    with that(5) have "discriminatorSize h1 = discriminatorSize h2"
      by (simp add: discriminatorSize_def)
    then show ?thesis
      by (simp add: discriminator_take)
  qed
  show ?thesis
  proof (intro conjI allI impI)
    show "discriminator E h nm ns =
        take (if layoutVersion h = None then 8 else 4)
          (sha256_digest E
             ((case ns of None \<Rightarrow> ''account'' | Some n \<Rightarrow> n) @ '':'' @ camelcase E nm))"
      by (rule prefix)
    show "length (discriminator E h nm ns) = (if layoutVersion h = None then 8 else 4)"
      by (rule len)
  next
    fix i i' :: "'a idl" and c c' :: "('a, 'b) coder" and h1 h2
    assume "new_coder E i = Inr c \<and> new_coder E i' = Inr c' \<and>
      header c = Some h1 \<and> header c' = Some h2 \<and>
      (layoutVersion i = None) = (layoutVersion i' = None)"
    then show "discriminator E h1 nm ns = discriminator E h2 nm ns"
      using same [of i c i' c' h1 h2] by simp
  qed
qed

theorem discriminator_digest_prefix_witness:
  "(\<forall>s. length (sha256_digest ref_env s) = 32) \<and>
   discriminator ref_env legacy_idl ''counter'' None = take 8 (sha256 ''account:Counter'') \<and>
   discriminator ref_env versioned_idl ''counter'' (Some ''state'') =
     take 4 (sha256 ''state:Counter'') \<and>
   new_coder ref_env legacy_idl = Inr legacy_coder \<and>
   new_coder ref_env empty_idl = Inr empty_coder \<and>
   header legacy_coder = Some legacy_idl \<and> header empty_coder = Some empty_idl \<and>
   (layoutVersion legacy_idl = None) = (layoutVersion empty_idl = None) \<and>
   discriminator ref_env legacy_idl ''counter'' None =
     discriminator ref_env empty_idl ''counter'' None"
proof -
  note legacy =
    discriminator_digest_prefix [OF ref_env_digest_length, of legacy_idl "''counter''" None]
  note versioned =
    discriminator_digest_prefix [OF ref_env_digest_length,
      of versioned_idl "''counter''" "Some ''state''"]
  have same_format: "(layoutVersion legacy_idl = None) = (layoutVersion empty_idl = None)"
    by (simp add: layoutVersion_legacy layoutVersion_empty)
  from legacy have "\<forall>i i' c c' h1 h2.
      new_coder ref_env i = Inr c \<and> new_coder ref_env i' = Inr c' \<and>
      header c = Some h1 \<and> header c' = Some h2 \<and>
      (layoutVersion i = None) = (layoutVersion i' = None) \<longrightarrow>
      discriminator ref_env h1 ''counter'' None = discriminator ref_env h2 ''counter'' None"
    by (elim conjE)
  from this [rule_format, of legacy_idl legacy_coder empty_idl empty_coder legacy_idl empty_idl]
  have "discriminator ref_env legacy_idl ''counter'' None =
      discriminator ref_env empty_idl ''counter'' None"
    using new_coder_legacy new_coder_empty header_legacy_coder header_empty_coder same_format
    by simp
  moreover from legacy
  have "discriminator ref_env legacy_idl ''counter'' None = take 8 (sha256 ''account:Counter'')"
    by (simp add: ref_env_def layoutVersion_legacy pascalCase_counter)
  moreover from versioned
  have "discriminator ref_env versioned_idl ''counter'' (Some ''state'') =
      take 4 (sha256 ''state:Counter'')"
    by (simp add: ref_env_def layoutVersion_versioned pascalCase_counter)
  ultimately show ?thesis
    using ref_env_digest_length new_coder_legacy new_coder_empty header_legacy_coder
      header_empty_coder same_format
    by simp
qed

text \<open>
  C4 (as the code has it). \<^verbatim>\<open>parseDiscriminator\<close> has no length check and never fails:
  for every input, of whatever length, it returns the bytes the input has at the
  positions 0 to 7 (no layout version) or 2 to 5 (with one): of an input of \<open>n\<close> bytes
  the first \<open>min 8 n\<close>, or the \<open>min 4 (n - 2)\<close> from the third on, none when \<open>n \<le> 2\<close>.
\<close>

theorem parseDiscriminator_truncates:
  "parseDiscriminator h bs =
     (if layoutVersion h = None then take 8 bs else take 4 (drop 2 bs)) \<and>
   length (parseDiscriminator h bs) =
     (if layoutVersion h = None then min 8 (length bs) else min 4 (length bs - 2))"
  by (auto simp: parseDiscriminator_def buffer_slice_0_8 buffer_slice_2_6 min_def)

text \<open>The claim as the spec states it fails on a three-byte input, in either format.\<close>

theorem parseDiscriminator_short_input:
  "parseDiscriminator legacy_idl [1, 2, 3] = [1, 2, 3] \<and>
   parseDiscriminator versioned_idl [1, 2, 3] = [3]"
  by (simp add: parseDiscriminator_def buffer_slice_0_8 buffer_slice_2_6
      legacy_idl_def versioned_idl_def)

section \<open>Decoding\<close>

text \<open>
  C7. \<^verbatim>\<open>decodeUnchecked\<close> looks the type name up and nothing else: for an unregistered
  name it fails with the unknown-account error; for a registered one it hands the input
  without its first 8 bytes to the layout of that type and returns what the layout
  returns. No input, so no record encoded for another type either, makes it fail with the
  invalid-discriminator error.
\<close>

theorem decodeUnchecked_strips_header:
  "decodeUnchecked c T bs =
     (case accountLayouts c T of
        None \<Rightarrow> Inl (UnknownAccount T)
      | Some l \<Rightarrow> (case l_decode l (drop 8 bs) of None \<Rightarrow> Inl LayoutError | Some v \<Rightarrow> Inr v)) \<and>
   decodeUnchecked c T bs \<noteq> Inl InvalidDiscriminator"
  by (simp add: decodeUnchecked_def header_size_def ACCOUNT_HEADER_SIZE_def buffer_slice_8
      split: option.splits)

text \<open>
  C3 (as the code has it). \<^verbatim>\<open>decode\<close> compares the discriminators before it looks
  the type name up. On a coder built from a schema with an accounts list, decoding under
  an unregistered name fails with the invalid-discriminator error whenever the bytes
  parsed from the input differ from the discriminator of that name, and with the
  unknown-account error only when they are equal.
\<close>

theorem decode_unregistered:
  assumes "new_coder E i = Inr c" and "accounts i \<noteq> None" and "accountLayouts c T = None"
  shows "decode E c T bs =
           (if discriminator E i T None = parseDiscriminator i bs
            then Inl (UnknownAccount T) else Inl InvalidDiscriminator)"
  using decode_no_layout [OF new_coder_header [OF assms(1,2)] assms(3)] .

theorem decode_unregistered_witness:
  "new_coder ref_env legacy_idl = Inr legacy_coder \<and> accounts legacy_idl \<noteq> None \<and>
   accountLayouts legacy_coder ''Nope'' = None \<and>
   decode ref_env legacy_coder ''Nope'' [199, 203, 192, 10, 172, 69, 62, 43, 1, 2, 3] =
     Inl (UnknownAccount ''Nope'')"
  using decode_unregistered [OF new_coder_legacy accounts_legacy legacy_coder_Nope,
      of "[199, 203, 192, 10, 172, 69, 62, 43, 1, 2, 3]"]
    new_coder_legacy accounts_legacy legacy_coder_Nope
  by (simp add: discriminator_Nope_legacy parseDiscriminator_legacy)

text \<open>
  The claim as the spec states it fails: the name \<open>Nope\<close> is not registered, and decoding
  sixteen zero bytes under it reports an invalid discriminator, not an unknown account.
\<close>

theorem decode_unregistered_mismatch:
  "accountLayouts legacy_coder ''Nope'' = None \<and>
   decode ref_env legacy_coder ''Nope'' [0, 0, 0, 0, 0, 0, 0, 0, 0, 0, 0, 0, 0, 0, 0, 0] =
     Inl InvalidDiscriminator"
proof -
  have "discriminator ref_env legacy_idl ''Nope'' None
      \<noteq> parseDiscriminator legacy_idl [0, 0, 0, 0, 0, 0, 0, 0, 0, 0, 0, 0, 0, 0, 0, 0]"
    by (simp add: discriminator_Nope_legacy parseDiscriminator_legacy)
  then show ?thesis
    using decode_no_layout [OF header_legacy_coder legacy_coder_Nope,
        of ref_env "[0, 0, 0, 0, 0, 0, 0, 0, 0, 0, 0, 0, 0, 0, 0, 0]"] legacy_coder_Nope
    by simp
qed

section \<open>The memcmp filter\<close>

text \<open>
  C5 (as the code has it). \<^verbatim>\<open>memcmp\<close> never looks the type name up. On a coder built
  from a schema with an accounts list it returns, for every type name, registered or not,
  the descriptor whose offset is the discriminator offset and whose bytes are the base58
  encoding of the discriminator of that name.
\<close>

theorem memcmp_every_name:
  assumes "new_coder E i = Inr c" and "accounts i \<noteq> None"
  shows "memcmp E c T =
           Inr \<lparr>offset = discriminatorOffset i,
                bytes = bs58_encode E (discriminator E i T None)\<rparr>"
  using new_coder_header [OF assms] by (simp add: memcmp_def)

theorem memcmp_every_name_witness:
  "new_coder ref_env versioned_idl = Inr versioned_coder \<and> accounts versioned_idl \<noteq> None \<and>
   memcmp ref_env versioned_coder ''counter'' = Inr \<lparr>offset = 2, bytes = ''7Y4xzg''\<rparr>"
  using memcmp_every_name [OF new_coder_versioned accounts_versioned, of "''counter''"]
    new_coder_versioned accounts_versioned
  by (simp add: discriminator_counter_versioned discriminatorOffset_def
      layoutVersion_versioned base58_counter ref_env_bs58)

text \<open>
  The claim as the spec states it fails: for the unregistered name \<open>Nope\<close> the filter is
  built all the same.
\<close>

theorem memcmp_unregistered:
  "accountLayouts legacy_coder ''Nope'' = None \<and>
   memcmp ref_env legacy_coder ''Nope'' = Inr \<lparr>offset = 0, bytes = ''aRGgwvYSubp''\<rparr>"
proof -
  have "bs58_encode ref_env (discriminator ref_env legacy_idl ''Nope'' None) = ''aRGgwvYSubp''"
    by (simp add: discriminator_Nope_legacy ref_env_bs58 base58_Nope)
  then show ?thesis
    by (simp add: memcmp_def header_legacy_coder discriminatorOffset_def
        layoutVersion_legacy legacy_coder_Nope)
qed

section \<open>A schema without account types\<close>

text \<open>
  C8 (as the code has it). A coder is built without error from a schema that declares no
  account types, whether the accounts list is missing or empty, and \<^verbatim>\<open>encode\<close> and
  \<^verbatim>\<open>decodeUnchecked\<close> on it report the unknown-account error for every type name. When
  the accounts list is present and empty, \<^verbatim>\<open>decode\<close> reports the unknown-account error
  only for an input whose discriminator bytes equal the discriminator of the name, and an
  invalid discriminator otherwise, and \<^verbatim>\<open>memcmp\<close> reports no error.
\<close>

theorem coder_without_account_types:
  assumes "accounts i = None \<or> accounts i = Some []"
  shows "\<exists>c. new_coder E i = Inr c \<and>
           (\<forall>T v. encode E c T v = Inl (UnknownAccount T)) \<and>
           (\<forall>T bs. decodeUnchecked c T bs = Inl (UnknownAccount T)) \<and>
           (accounts i = Some [] \<longrightarrow>
              (\<forall>T bs. decode E c T bs =
                 (if discriminator E i T None = parseDiscriminator i bs
                  then Inl (UnknownAccount T) else Inl InvalidDiscriminator)) \<and>
              (\<forall>T. memcmp E c T =
                 Inr \<lparr>offset = discriminatorOffset i,
                      bytes = bs58_encode E (discriminator E i T None)\<rparr>))"
  using assms
proof
  assume none: "accounts i = None"
  let ?c = "\<lparr>accountLayouts = Map.empty, coder_idl = None, header = None\<rparr> :: ('a, 'b) coder"
  have "new_coder E i = Inr ?c"
    by (simp add: new_coder_def none)
  moreover have "encode E ?c T v = Inl (UnknownAccount T)" for T v
    by (simp add: encode_def)
  moreover have "decodeUnchecked ?c T bs = Inl (UnknownAccount T)" for T bs
    by (simp add: decodeUnchecked_def)
  ultimately show ?thesis
    using none by auto
next
  assume nil: "accounts i = Some []"
  let ?c = "\<lparr>accountLayouts = new_Map [], coder_idl = Some i, header = Some i\<rparr> :: ('a, 'b) coder"
  have built: "new_coder E i = Inr ?c"
    by (simp add: new_coder_def nil)
  have layouts: "accountLayouts ?c T = None" for T
    by (simp add: new_Map_def)
  have "encode E ?c T v = Inl (UnknownAccount T)" for T v
    by (simp add: encode_def new_Map_def)
  moreover have "decodeUnchecked ?c T bs = Inl (UnknownAccount T)" for T bs
    by (simp add: decodeUnchecked_def new_Map_def)
  moreover have "decode E ?c T bs =
      (if discriminator E i T None = parseDiscriminator i bs
       then Inl (UnknownAccount T) else Inl InvalidDiscriminator)" for T bs
    using decode_no_layout [of ?c i T E bs] layouts by simp
  moreover have "memcmp E ?c T =
      Inr \<lparr>offset = discriminatorOffset i,
           bytes = bs58_encode E (discriminator E i T None)\<rparr>" for T
    by (simp add: memcmp_def)
  ultimately show ?thesis
    using built by blast
qed

theorem coder_without_account_types_witness:
  "(accounts bare_idl = None \<or> accounts bare_idl = Some []) \<and>
   (\<exists>c. new_coder ref_env bare_idl = Inr c \<and>
      encode ref_env c ''counter'' [42] = Inl (UnknownAccount ''counter'') \<and>
      decodeUnchecked c ''counter'' [0, 0, 0, 0, 0, 0, 0, 0, 0, 0, 0, 0, 0, 0, 0, 0] = Inl (UnknownAccount ''counter'')) \<and>
   (accounts empty_idl = None \<or> accounts empty_idl = Some []) \<and>
   accounts empty_idl = Some [] \<and>
   (\<exists>c. new_coder ref_env empty_idl = Inr c \<and>
      encode ref_env c ''counter'' [42] = Inl (UnknownAccount ''counter'') \<and>
      decodeUnchecked c ''counter'' [0, 0, 0, 0, 0, 0, 0, 0, 0, 0, 0, 0, 0, 0, 0, 0] = Inl (UnknownAccount ''counter'') \<and>
      decode ref_env c ''counter'' [255, 176, 4, 245, 188, 253, 124, 25, 42] =
        Inl (UnknownAccount ''counter'') \<and>
      memcmp ref_env c ''counter'' = Inr \<lparr>offset = 0, bytes = ''jmVQbGxuVYt''\<rparr>)"
proof -
  have b: "accounts bare_idl = None \<or> accounts bare_idl = Some []"
    by (simp add: bare_idl_def)
  have nil: "accounts empty_idl = Some []"
    by (simp add: empty_idl_def)
  then have e: "accounts empty_idl = None \<or> accounts empty_idl = Some []"
    by simp
  have bare: "\<exists>c. new_coder ref_env bare_idl = Inr c \<and>
      encode ref_env c ''counter'' [42] = Inl (UnknownAccount ''counter'') \<and>
      decodeUnchecked c ''counter'' [0, 0, 0, 0, 0, 0, 0, 0, 0, 0, 0, 0, 0, 0, 0, 0] = Inl (UnknownAccount ''counter'')"
    using coder_without_account_types [OF b, of ref_env] by blast
  from coder_without_account_types [OF e, of ref_env] nil
  obtain c where c: "new_coder ref_env empty_idl = Inr c"
    "encode ref_env c ''counter'' [42] = Inl (UnknownAccount ''counter'')"
    "decodeUnchecked c ''counter'' [0, 0, 0, 0, 0, 0, 0, 0, 0, 0, 0, 0, 0, 0, 0, 0] = Inl (UnknownAccount ''counter'')"
    "decode ref_env c ''counter'' [255, 176, 4, 245, 188, 253, 124, 25, 42] =
       (if discriminator ref_env empty_idl ''counter'' None =
           parseDiscriminator empty_idl [255, 176, 4, 245, 188, 253, 124, 25, 42]
        then Inl (UnknownAccount ''counter'') else Inl InvalidDiscriminator)"
    "memcmp ref_env c ''counter'' =
       Inr \<lparr>offset = discriminatorOffset empty_idl,
            bytes = bs58_encode ref_env (discriminator ref_env empty_idl ''counter'' None)\<rparr>"
    by blast
  from c(4) have "decode ref_env c ''counter'' [255, 176, 4, 245, 188, 253, 124, 25, 42] =
      Inl (UnknownAccount ''counter'')"
    by (simp add: discriminator_counter_empty parseDiscriminator_empty)
  moreover from c(5)
  have "memcmp ref_env c ''counter'' = Inr \<lparr>offset = 0, bytes = ''jmVQbGxuVYt''\<rparr>"
    by (simp add: discriminator_counter_empty discriminatorOffset_def layoutVersion_empty
        ref_env_bs58 base58_counter_legacy)
  ultimately have "\<exists>c. new_coder ref_env empty_idl = Inr c \<and>
      encode ref_env c ''counter'' [42] = Inl (UnknownAccount ''counter'') \<and>
      decodeUnchecked c ''counter'' [0, 0, 0, 0, 0, 0, 0, 0, 0, 0, 0, 0, 0, 0, 0, 0] = Inl (UnknownAccount ''counter'') \<and>
      decode ref_env c ''counter'' [255, 176, 4, 245, 188, 253, 124, 25, 42] =
        Inl (UnknownAccount ''counter'') \<and>
      memcmp ref_env c ''counter'' = Inr \<lparr>offset = 0, bytes = ''jmVQbGxuVYt''\<rparr>"
    using c(1,2,3) by blast
  with b bare e nil show ?thesis
    by blast
qed

text \<open>
  The claim as the spec states it fails on the coder of a schema whose accounts list is
  empty: decoding sixteen zero bytes reports an invalid discriminator, and the memcmp
  filter is built.
\<close>

theorem empty_coder_not_unknown:
  "accounts empty_idl = Some [] \<and> new_coder ref_env empty_idl = Inr empty_coder \<and>
   decode ref_env empty_coder ''counter'' [0, 0, 0, 0, 0, 0, 0, 0, 0, 0, 0, 0, 0, 0, 0, 0] = Inl InvalidDiscriminator \<and>
   memcmp ref_env empty_coder ''counter'' = Inr \<lparr>offset = 0, bytes = ''jmVQbGxuVYt''\<rparr>"
proof -
  have "discriminator ref_env empty_idl ''counter'' None \<noteq> parseDiscriminator empty_idl [0, 0, 0, 0, 0, 0, 0, 0, 0, 0, 0, 0, 0, 0, 0, 0]"
    by (simp add: discriminator_counter_empty parseDiscriminator_empty)
  then have "decode ref_env empty_coder ''counter'' [0, 0, 0, 0, 0, 0, 0, 0, 0, 0, 0, 0, 0, 0, 0, 0] = Inl InvalidDiscriminator"
    using decode_no_layout [OF header_empty_coder
        empty_coder_layouts [of "''counter''"], of ref_env "[0, 0, 0, 0, 0, 0, 0, 0, 0, 0, 0, 0, 0, 0, 0, 0]"]
    by simp
  moreover have "memcmp ref_env empty_coder ''counter'' =
      Inr \<lparr>offset = 0, bytes = ''jmVQbGxuVYt''\<rparr>"
    by (simp add: memcmp_def header_empty_coder discriminatorOffset_def layoutVersion_empty
        discriminator_counter_empty ref_env_bs58 base58_counter_legacy)
  moreover have "accounts empty_idl = Some []"
    by (simp add: empty_idl_def)
  ultimately show ?thesis
    using new_coder_empty by simp
qed

section \<open>Encoding\<close>

text \<open>
  C10. \<^verbatim>\<open>encode\<close> hands the layout a scratch buffer of 1000 bytes. For a registered type
  and a value that the layout encodes as the bytes \<open>body\<close>, \<^verbatim>\<open>encode\<close> fails when
  \<open>body\<close> is longer than 1000 bytes, the layout raising for want of room, and returns
  the header followed by exactly \<open>body\<close>, with no padding, otherwise.
\<close>

theorem encode_scratch_buffer:
  assumes "new_coder E i = Inr c" and "accountLayouts c T = Some l" and "writes l v body"
  shows "encode E c T v =
           (if length body \<le> 1000 then Inr (header_encode E i T None @ body)
            else Inl LayoutError)"
proof (cases "length body \<le> 1000")
  case True
  with assms(3) have "l_encode l v (alloc 1000) =
      Some (int (length body), body @ drop (length body) (alloc 1000))"
    by (simp add: writes_def alloc_def)
  from encode_registered [OF new_coder_registered [OF assms(1,2)] assms(2) this, of E]
  show ?thesis
    using True by (simp add: buffer_slice_prefix)
next
  case False
  with assms(3) have "l_encode l v (alloc 1000) = None"
    by (simp add: writes_def alloc_def)
  from encode_layout_raises [OF assms(2) this, of E] show ?thesis
    using False by simp
qed

theorem encode_scratch_buffer_witness:
  "new_coder ref_env legacy_idl = Inr legacy_coder \<and>
   accountLayouts legacy_coder ''counter'' = Some raw_layout \<and>
   writes raw_layout [42, 0, 0, 0, 0, 0, 0, 0] [42, 0, 0, 0, 0, 0, 0, 0] \<and>
   writes raw_layout (replicate 1001 0) (replicate 1001 0) \<and>
   encode ref_env legacy_coder ''counter'' [42, 0, 0, 0, 0, 0, 0, 0] =
     Inr [255, 176, 4, 245, 188, 253, 124, 25, 42, 0, 0, 0, 0, 0, 0, 0] \<and>
   encode ref_env legacy_coder ''counter'' (replicate 1001 0) = Inl LayoutError"
  using encode_scratch_buffer [OF new_coder_legacy legacy_coder_counter
      writes_raw_layout [of "[42, 0, 0, 0, 0, 0, 0, 0]"]]
    encode_scratch_buffer [OF new_coder_legacy legacy_coder_counter
      writes_raw_layout [of "replicate 1001 0"]]
    new_coder_legacy legacy_coder_counter writes_raw_layout
  by (simp add: header_encode_def layoutVersion_legacy discriminator_counter_legacy)

section \<open>Round trip\<close>

text \<open>
  Where the layout's write succeeds on the buffer that \<^verbatim>\<open>encode\<close> hands it, and the
  layout decodes the bytes it wrote, \<^verbatim>\<open>decode\<close> of the record that \<^verbatim>\<open>encode\<close> returns is
  the value. The digest is taken to be 32 bytes long, as a SHA-256 digest is.
\<close>

lemma roundtrip_where_encode_succeeds:
  assumes "new_coder E i = Inr c" and "accountLayouts c T = Some l"
    and "\<forall>s. length (sha256_digest E s) = 32"
    and "l_encode l v (alloc 1000) = Some (len, b')"
    and "l_decode l (buffer_slice b' 0 (Some len)) = Some v"
  shows "roundtrip E c T v = Inr v"
proof -
  have h: "header c = Some i"
    by (rule new_coder_registered [OF assms(1,2)])
  have "encode E c T v = Inr (header_encode E i T None @ buffer_slice b' 0 (Some len))"
    by (rule encode_registered [OF h assms(2,4)])
  moreover have "decode E c T (header_encode E i T None @ buffer_slice b' 0 (Some len)) = Inr v"
    using decode_encoded_record [OF h assms(2,3), of "buffer_slice b' 0 (Some len)"] assms(5)
    by simp
  ultimately show ?thesis
    by (simp add: roundtrip_def)
qed

lemma roundtrip_counter_versioned:
  "new_coder ref_env versioned_idl = Inr versioned_coder \<and>
   accountLayouts versioned_coder ''counter'' = Some raw_layout \<and>
   (\<forall>s. length (sha256_digest ref_env s) = 32) \<and>
   l_encode raw_layout [42, 0, 0, 0, 0, 0, 0, 0] (alloc 1000) =
     Some (8, [42, 0, 0, 0, 0, 0, 0, 0] @ replicate 992 0) \<and>
   l_decode raw_layout
     (buffer_slice ([42, 0, 0, 0, 0, 0, 0, 0] @ replicate 992 0) 0 (Some 8)) =
     Some [42, 0, 0, 0, 0, 0, 0, 0] \<and>
   roundtrip ref_env versioned_coder ''counter'' [42, 0, 0, 0, 0, 0, 0, 0] =
     Inr [42, 0, 0, 0, 0, 0, 0, 0]"
proof -
  have reg: "accountLayouts versioned_coder ''counter'' = Some raw_layout"
    by (simp add: versioned_coder_def new_Map_def)
  have enc: "l_encode raw_layout [42, 0, 0, 0, 0, 0, 0, 0] (alloc 1000) =
      Some (8, [42, 0, 0, 0, 0, 0, 0, 0] @ replicate 992 0)"
    by (simp add: raw_layout_def alloc_def)
  have dec: "l_decode raw_layout
      (buffer_slice ([42, 0, 0, 0, 0, 0, 0, 0] @ replicate 992 0) 0 (Some 8)) =
      Some [42, 0, 0, 0, 0, 0, 0, 0]"
    by (simp add: raw_layout_def buffer_slice_0_8)
  show ?thesis
    using roundtrip_where_encode_succeeds
      [OF new_coder_versioned reg ref_env_digest_length enc dec]
      new_coder_versioned reg ref_env_digest_length enc dec
    by simp
qed

text \<open>
  C1. The round trip is to hold for every registered type and every value valid for its
  schema, given a layout that round-trips: \<open>decode(T, encode(T, v))\<close> returns \<open>v\<close>. The
  code breaks it on a value of 1001 bytes. The layout of raw bytes encodes that value into
  a buffer with room for it and decodes it again, so the layout round-trips on it; yet
  \<^verbatim>\<open>encode\<close> allocates 1000 bytes whatever the value, the layout's write overruns them,
  and the round trip ends in the layout's error instead of the value.
\<close>

theorem roundtrip_large_value:
  "new_coder ref_env legacy_idl = Inr legacy_coder \<and>
   accountLayouts legacy_coder ''counter'' = Some raw_layout \<and>
   l_encode raw_layout (replicate 1001 7) (alloc 1001) = Some (1001, replicate 1001 7) \<and>
   l_decode raw_layout (replicate 1001 7) = Some (replicate 1001 7) \<and>
   roundtrip ref_env legacy_coder ''counter'' (replicate 1001 7) = Inl LayoutError"
proof -
  have "l_encode raw_layout (replicate 1001 7) (alloc 1000) = None"
    by (simp add: raw_layout_def alloc_def)
  from encode_layout_raises [OF legacy_coder_counter this, of ref_env]
  have "roundtrip ref_env legacy_coder ''counter'' (replicate 1001 7) = Inl LayoutError"
    by (simp add: roundtrip_def)
  moreover have "l_encode raw_layout (replicate 1001 7) (alloc 1001) =
      Some (1001, replicate 1001 7)"
    by (simp add: raw_layout_def alloc_def)
  moreover have "l_decode raw_layout (replicate 1001 7) = Some (replicate 1001 7)"
    by (simp add: raw_layout_def)
  ultimately show ?thesis
    using new_coder_legacy legacy_coder_counter by simp
qed

section \<open>Canonical names\<close>

text \<open>
  C9. With the canonical form of the spec for the case conversion, and whatever the
  digest, the names \<open>myAccount\<close> and \<open>MyAccount\<close> have the same discriminator in both
  formats and under every namespace: both are rewritten to \<open>MyAccount\<close> before hashing.
\<close>

theorem discriminator_myAccount:
  "discriminator (E\<lparr>camelcase := pascalCase\<rparr>) h ''myAccount'' ns =
     discriminator (E\<lparr>camelcase := pascalCase\<rparr>) h ''MyAccount'' ns \<and>
   pascalCase ''myAccount'' = ''MyAccount'' \<and> pascalCase ''MyAccount'' = ''MyAccount''"
proof -
  have "pascalCase ''myAccount'' = ''MyAccount''"
    by code_simp
  moreover have "pascalCase ''MyAccount'' = ''MyAccount''"
    by code_simp
  ultimately show ?thesis
    by (simp add: discriminator_def)
qed

end
